theory Spec2Isabelle
  imports Main
begin

section \<open>Errors and the tomb\<close>

text \<open>
  A Go \<open>error\<close> value is \<open>nil\<close> or an error. The tomb package has two sentinel
  errors of its own, \<open>ErrStillAlive\<close> and \<open>ErrDying\<close>; every other error is an
  ordinary one and carries its message (\<open>fmt.Errorf\<close>). \<open>None\<close> is \<open>nil\<close>.
\<close>

datatype error = ErrStillAlive | ErrDying | Err string

type_synonym goerror = "error option"

datatype panic = KillDyingWhileAlive

text \<open>
  Modelled from the spec: the tomb (\<open>launchpad.net/tomb\<close>, imported at
  part_001 line 9 and held in the field \<open>notifyWorker.tomb\<close>) is not under src/.
  It is the spec's DeathRecorder: a reason cell that starts \<open>alive\<close>, a "dying"
  signal (\<open>Dying()\<close> is closed) and a "dead" signal (\<open>Wait()\<close> may return).
\<close>

record tomb =
  reason :: goerror
  dying :: bool
  dead :: bool

text \<open>
  Modelled from the spec: the state of a fresh tomb, \<open>alive\<close>, which the package
  marks with the reason \<open>ErrStillAlive\<close>.
\<close>

definition tomb_init :: tomb where
  "tomb_init = \<lparr>reason = Some ErrStillAlive, dying = False, dead = False\<rparr>"

text \<open>
  Modelled from the spec: \<open>Tomb.Kill\<close> is not under src/. Spec, section 3: once a
  non-sentinel, non-nil error is latched no later latch attempt changes it; a
  nil or still-alive reason is replaced by the reason given; the sentinel
  \<open>ErrDying\<close> never replaces anything (the package panics when it is given to a
  tomb that is still alive). Every other call leaves the tomb dying.
\<close>

definition tomb_Kill :: "goerror \<Rightarrow> tomb \<Rightarrow> panic + tomb" where
  "tomb_Kill r t =
     (if r = Some ErrDying then
        (if reason t = Some ErrStillAlive then Inl KillDyingWhileAlive else Inr t)
      else
        Inr (t\<lparr>reason := (if reason t = None \<or> reason t = Some ErrStillAlive
                           then r else reason t),
               dying := True\<rparr>))"

text \<open>
  Modelled from the spec: \<open>Tomb.Done\<close> is not under src/. It is \<open>Kill(nil)\<close>
  followed by closing the dead signal (spec, 4.1 step 5).
\<close>

definition tomb_Done :: "tomb \<Rightarrow> panic + tomb" where
  "tomb_Done t = (case tomb_Kill None t of Inl p \<Rightarrow> Inl p | Inr t' \<Rightarrow> Inr (t'\<lparr>dead := True\<rparr>))"

text \<open>
  Modelled from the spec: \<open>Tomb.Wait\<close> is not under src/. It blocks until the tomb
  is dead and returns the latched reason; \<open>None\<close> here says that the caller is
  still blocked.
\<close>

definition tomb_Wait :: "tomb \<Rightarrow> goerror option" where
  "tomb_Wait t = (if dead t then Some (reason t) else None)"

text \<open>A sequence of \<open>Kill\<close> calls on one tomb, stopping at the first panic.\<close>

fun tomb_Kills :: "goerror list \<Rightarrow> tomb \<Rightarrow> panic + tomb" where
  "tomb_Kills [] t = Inr t"
| "tomb_Kills (r # rs) t = (case tomb_Kill r t of Inl p \<Rightarrow> Inl p | Inr t' \<Rightarrow> tomb_Kills rs t')"

section \<open>Watcher and handler\<close>

text \<open>
  A \<open>state.NotifyWatcher\<close> as the worker uses it: \<open>Stop()\<close> returns \<open>stopError\<close>
  (part_002 lines 125-130); what \<open>Changes()\<close> delivers is part of the schedule
  below.
\<close>

record notifyWatcher =
  stopError :: goerror

text \<open>
  A \<open>WatchHandler\<close> (part_001 lines 35-45): \<open>SetUp()\<close> returns a watcher (or nil)
  and an error (or nil); the \<open>i\<close>-th call of \<open>Handle()\<close>, counted from 0, returns
  \<open>handle i\<close>; \<open>TearDown()\<close> returns nothing.
\<close>

record watchHandler =
  setUp :: "notifyWatcher option \<times> goerror"
  handle :: "nat \<Rightarrow> goerror"

datatype action = CallSetUp | CallHandle | CallTearDown | CallStop

text \<open>
  What happens around the goroutine while it waits in its \<open>select\<close>: another
  goroutine calls \<open>Kill()\<close>, or the \<open>select\<close> receives from \<open>w.Changes()\<close>. A
  schedule lists these in the order in which they happen. When the schedule is
  used up the \<open>select\<close> takes the \<open>Dying()\<close> case if the tomb is dying, and blocks
  for ever otherwise.
\<close>

datatype event = KillCalled | ChangeReceived

datatype phase = NotStarted | Selecting notifyWatcher | Exited | Crashed

text \<open>
  The worker (part_001 lines 16-21) with the trace of the calls it has made to
  its handler and watcher, the number of \<open>Handle\<close> calls so far, and where its
  goroutine is.
\<close>

record notifyWorker =
  tomb :: tomb
  handler :: watchHandler
  actions :: "action list"
  calls :: nat
  goroutine :: phase

datatype outcome = Returns goerror | Panics | Blocks

definition record_call :: "action \<Rightarrow> notifyWorker \<Rightarrow> notifyWorker" where
  "record_call a nw = nw\<lparr>actions := actions nw @ [a]\<rparr>"

section \<open>The worker\<close>

text \<open>\<open>Kill\<close>, part_001 lines 59-61: \<open>nw.tomb.Kill(nil)\<close>.\<close>

definition Kill :: "notifyWorker \<Rightarrow> notifyWorker" where
  "Kill nw = (case tomb_Kill None (tomb nw) of
                Inl p \<Rightarrow> nw\<lparr>goroutine := Crashed\<rparr>
              | Inr t \<Rightarrow> nw\<lparr>tomb := t\<rparr>)"

text \<open>The \<open>for { select { ... } }\<close> of \<open>loop\<close>, part_001 lines 91-100.\<close>

fun select_loop :: "event list \<Rightarrow> notifyWorker \<Rightarrow> outcome \<times> notifyWorker" where
  "select_loop [] nw =
     (if dying (tomb nw) then (Returns (Some ErrDying), nw) else (Blocks, nw))"
| "select_loop (KillCalled # es) nw = select_loop es (Kill nw)"
| "select_loop (ChangeReceived # es) nw =
     (case handle (handler nw) (calls nw) of
        None \<Rightarrow> select_loop es ((record_call CallHandle nw)\<lparr>calls := Suc (calls nw)\<rparr>)
      | Some err \<Rightarrow> (Returns (Some err), (record_call CallHandle nw)\<lparr>calls := Suc (calls nw)\<rparr>))"

text \<open>
  Modelled from the spec: \<open>watcher.Stop\<close> (package state/watcher) is not under
  src/. Spec, 4.1 step 4: the watcher is released, and an error of the release
  is latched into the tomb, where it becomes the terminal error unless a real
  error is latched already.
\<close>

definition watcher_Stop :: "notifyWatcher \<Rightarrow> tomb \<Rightarrow> panic + tomb" where
  "watcher_Stop w t = (case stopError w of None \<Rightarrow> Inr t | Some err \<Rightarrow> tomb_Kill (Some err) t)"

text \<open>
  The deferred calls of \<open>loop\<close> once a watcher is adopted, run last-in first-out
  when \<open>loop\<close> returns: \<open>watcher.Stop(w, &nw.tomb)\<close> (line 90) and then
  \<open>nw.handler.TearDown()\<close> (line 78). A panic in the first does not stop the
  second.
\<close>

definition run_deferred :: "notifyWatcher \<Rightarrow> outcome \<times> notifyWorker \<Rightarrow> outcome \<times> notifyWorker" where
  "run_deferred w x =
     (case x of (out, nw) \<Rightarrow>
        if out = Blocks then (Blocks, nw)
        else (case watcher_Stop w (tomb nw) of
                Inl p \<Rightarrow> (Panics, record_call CallTearDown (record_call CallStop nw))
              | Inr t \<Rightarrow> (out, record_call CallTearDown (record_call CallStop (nw\<lparr>tomb := t\<rparr>)))))"

definition from_select :: "notifyWatcher \<Rightarrow> event list \<Rightarrow> notifyWorker \<Rightarrow> outcome \<times> notifyWorker" where
  "from_select w es nw = run_deferred w (select_loop es (nw\<lparr>goroutine := Selecting w\<rparr>))"

text \<open>\<open>loop\<close>, part_001 lines 74-102.\<close>

definition loop :: "event list \<Rightarrow> notifyWorker \<Rightarrow> outcome \<times> notifyWorker" where
  "loop es nw =
     (case setUp (handler nw) of
        (w, Some err) \<Rightarrow>
          (Returns (Some err),
           record_call CallTearDown
             (case w of None \<Rightarrow> record_call CallSetUp nw
                      | Some w' \<Rightarrow> record_call CallStop (record_call CallSetUp nw)))
      | (None, None) \<Rightarrow>
          (Returns (Some (Err ''SetUp returned a nil Watcher'')),
           record_call CallTearDown (record_call CallSetUp nw))
      | (Some w, None) \<Rightarrow> from_select w es (record_call CallSetUp nw))"

text \<open>
  The goroutine of \<open>NewNotifyWorker\<close>, part_001 lines 51-54:
  \<open>nw.tomb.Kill(nw.loop())\<close> with \<open>nw.tomb.Done()\<close> deferred. A goroutine that
  blocks for ever stays where it is.
\<close>

definition finish :: "phase \<Rightarrow> notifyWorker \<Rightarrow> notifyWorker" where
  "finish ph nw = (case tomb_Done (tomb nw) of
                     Inl p \<Rightarrow> nw\<lparr>goroutine := Crashed\<rparr>
                   | Inr t \<Rightarrow> nw\<lparr>tomb := t, goroutine := ph\<rparr>)"

definition kill_and_done :: "outcome \<times> notifyWorker \<Rightarrow> notifyWorker" where
  "kill_and_done x =
     (case x of
        (Blocks, nw) \<Rightarrow> nw
      | (Panics, nw) \<Rightarrow> finish Crashed nw
      | (Returns r, nw) \<Rightarrow>
          (case tomb_Kill r (tomb nw) of
             Inl p \<Rightarrow> finish Crashed nw
           | Inr t \<Rightarrow> finish Exited (nw\<lparr>tomb := t\<rparr>)))"

text \<open>
  The worker after its goroutine has run as far as it ever will, under the
  schedule \<open>es\<close> of everything that is still to happen.
\<close>

definition advance :: "event list \<Rightarrow> notifyWorker \<Rightarrow> notifyWorker" where
  "advance es nw =
     (case goroutine nw of
        NotStarted \<Rightarrow> kill_and_done (loop es nw)
      | Selecting w \<Rightarrow> kill_and_done (from_select w es nw)
      | Exited \<Rightarrow> nw
      | Crashed \<Rightarrow> nw)"

text \<open>\<open>NewNotifyWorker\<close>, part_001 lines 47-56.\<close>

definition NewNotifyWorker :: "watchHandler \<Rightarrow> notifyWorker" where
  "NewNotifyWorker h =
     \<lparr>tomb = tomb_init, handler = h, actions = [], calls = 0, goroutine = NotStarted\<rparr>"

text \<open>
  \<open>Wait\<close>, part_001 lines 70-72: \<open>nw.tomb.Wait()\<close>. \<open>None\<close>: the call never
  returns.
\<close>

definition Wait :: "event list \<Rightarrow> notifyWorker \<Rightarrow> goerror option" where
  "Wait es nw = tomb_Wait (tomb (advance es nw))"

text \<open>\<open>Stop\<close>, part_001 lines 64-67: \<open>nw.tomb.Kill(nil)\<close>, then \<open>nw.tomb.Wait()\<close>.\<close>

definition Stop :: "event list \<Rightarrow> notifyWorker \<Rightarrow> goerror option" where
  "Stop es nw = (case tomb_Kill None (tomb nw) of
                   Inl p \<Rightarrow> None
                 | Inr t \<Rightarrow> tomb_Wait (tomb (advance es (nw\<lparr>tomb := t\<rparr>))))"

section \<open>The test doubles\<close>

text \<open>
  \<open>TestWatcher\<close>, part_002 lines 109-130, with its \<open>stopError\<close>, and
  \<open>ActionsHandler\<close>, part_002 lines 47-81: \<open>SetUp\<close> returns the handler's
  watcher and its \<open>setupError\<close>, every \<open>Handle\<close> returns its \<open>handlerError\<close>.
\<close>

definition TestWatcher :: "goerror \<Rightarrow> notifyWatcher" where
  "TestWatcher err = \<lparr>stopError = err\<rparr>"

definition ActionsHandler :: "notifyWatcher option \<Rightarrow> goerror \<Rightarrow> goerror \<Rightarrow> watchHandler" where
  "ActionsHandler watcher setupError handlerError =
     \<lparr>setUp = (watcher, setupError), handle = (\<lambda>i. handlerError)\<rparr>"

section \<open>The logger API\<close>

text \<open>
  \<open>params.StringResult\<close>: a pointer to an error (\<open>None\<close> is nil) and a string,
  both zero in a fresh slice (part_003 line 66).
\<close>

record 'e stringResult =
  Error :: "'e option"
  Result :: string

text \<open>
  \<open>loggerAPI\<close>, part_003 lines 31-35, as \<open>LoggingConfig\<close> uses it: what
  \<open>api.state.EnvironConfig()\<close> returns (a config and an error) and
  \<open>api.authorizer.AuthOwner\<close>.
\<close>

record 'c loggerAPI =
  environConfig :: "'c \<times> goerror"
  authOwner :: "string \<Rightarrow> bool"

text \<open>
  \<open>LoggingConfig\<close>, part_003 lines 65-84. The packages \<open>common\<close> and \<open>config\<close>
  are not under src/: \<open>common.ErrPerm\<close>, \<open>common.ServerError\<close> and the method
  \<open>config.LoggingConfig()\<close> are parameters.
\<close>

definition LoggingConfig ::
    "error \<Rightarrow> (goerror \<Rightarrow> 'e option) \<Rightarrow> ('c \<Rightarrow> string) \<Rightarrow> 'c loggerAPI \<Rightarrow> string list
       \<Rightarrow> 'e stringResult list" where
  "LoggingConfig errPerm serverError config_LoggingConfig api entities =
     (case environConfig api of (config, configErr) \<Rightarrow>
        map (\<lambda>tag.
               if authOwner api tag then
                 (if configErr \<noteq> None
                  then \<lparr>Error = serverError None, Result = config_LoggingConfig config\<rparr>
                  else \<lparr>Error = serverError configErr, Result = ''''\<rparr>)
               else \<lparr>Error = serverError (Some errPerm), Result = ''''\<rparr>)
            entities)"

section \<open>Auxiliary facts\<close>

lemma tomb_Kill_nil:
  "tomb_Kill None t =
     Inr (t\<lparr>reason := (if reason t = Some ErrStillAlive then None else reason t),
            dying := True\<rparr>)"
  by (auto simp: tomb_Kill_def)

lemma Kill_eq:
  "Kill nw =
     nw\<lparr>tomb := (tomb nw)\<lparr>reason := (if reason (tomb nw) = Some ErrStillAlive then None
                                        else reason (tomb nw)),
                            dying := True\<rparr>\<rparr>"
  by (simp add: Kill_def tomb_Kill_nil)

lemma Kill_Kill: "Kill (Kill nw) = Kill nw"
  by (simp add: Kill_eq)

lemma Kill_fields [simp]:
  "handler (Kill nw) = handler nw" "actions (Kill nw) = actions nw"
  "calls (Kill nw) = calls nw" "goroutine (Kill nw) = goroutine nw"
  "dying (tomb (Kill nw))"
  by (simp_all add: Kill_eq)

lemma select_loop_all_nil:
  assumes "\<forall>j < count_list es ChangeReceived. handle (handler nw) (calls nw + j) = None"
  shows "select_loop es nw =
     (if dying (tomb nw) \<or> KillCalled \<in> set es then Returns (Some ErrDying) else Blocks,
      (if KillCalled \<in> set es then Kill nw else nw)
        \<lparr>actions := actions nw @ replicate (count_list es ChangeReceived) CallHandle,
         calls := calls nw + count_list es ChangeReceived\<rparr>)"
  using assms
proof (induction es arbitrary: nw)
  case Nil
  then show ?case by simp
next
  case (Cons e es)
  show ?case
  proof (cases e)
    case KillCalled
    have "\<forall>j < count_list es ChangeReceived. handle (handler (Kill nw)) (calls (Kill nw) + j) = None"
      using Cons.prems KillCalled by simp
    from Cons.IH [OF this] show ?thesis using KillCalled
      by (simp add: Kill_Kill)
  next
    case ChangeReceived
    let ?nw = "(record_call CallHandle nw)\<lparr>calls := Suc (calls nw)\<rparr>"
    have h0: "handle (handler nw) (calls nw) = None"
      using Cons.prems ChangeReceived by (auto dest: spec [of _ 0])
    have "\<forall>j < count_list es ChangeReceived. handle (handler ?nw) (calls ?nw + j) = None"
    proof (intro allI impI)
      fix j assume "j < count_list es ChangeReceived"
      then have "Suc j < count_list (e # es) ChangeReceived" using ChangeReceived by simp
      with Cons.prems have "handle (handler nw) (calls nw + Suc j) = None" by blast
      then show "handle (handler ?nw) (calls ?nw + j) = None" by (simp add: record_call_def)
    qed
    from Cons.IH [OF this] show ?thesis using ChangeReceived h0
      by (simp add: record_call_def Kill_eq replicate_append_same)
  qed
qed

lemma select_loop_fails:
  assumes "\<forall>j<k. handle (handler nw) (calls nw + j) = None"
      and "handle (handler nw) (calls nw + k) = Some e"
      and "k < count_list es ChangeReceived"
  shows "\<exists>t. (t = tomb nw \<or> t = tomb (Kill nw)) \<and>
           select_loop es nw =
             (Returns (Some e),
              nw\<lparr>tomb := t, actions := actions nw @ replicate (Suc k) CallHandle,
                 calls := calls nw + Suc k\<rparr>)"
  using assms
proof (induction es arbitrary: nw k)
  case Nil
  then show ?case by simp
next
  case (Cons ev es)
  show ?case
  proof (cases ev)
    case KillCalled
    have "\<exists>t. (t = tomb (Kill nw) \<or> t = tomb (Kill (Kill nw))) \<and>
           select_loop es (Kill nw) =
             (Returns (Some e),
              (Kill nw)\<lparr>tomb := t, actions := actions (Kill nw) @ replicate (Suc k) CallHandle,
                 calls := calls (Kill nw) + Suc k\<rparr>)"
      using Cons.prems KillCalled by (intro Cons.IH) simp_all
    then show ?thesis using KillCalled
      by (auto simp: Kill_Kill)
  next
    case ChangeReceived
    let ?nw = "(record_call CallHandle nw)\<lparr>calls := Suc (calls nw)\<rparr>"
    show ?thesis
    proof (cases k)
      case 0
      then show ?thesis using Cons.prems ChangeReceived
        by (intro exI [of _ "tomb nw"]) (simp add: record_call_def)
    next
      case (Suc k')
      have h0: "handle (handler nw) (calls nw) = None"
        using Cons.prems(1) Suc by (auto dest: spec [of _ 0])
      have a: "\<forall>j<k'. handle (handler ?nw) (calls ?nw + j) = None"
        using Cons.prems(1) Suc by (auto simp: record_call_def)
      have b: "handle (handler ?nw) (calls ?nw + k') = Some e"
        using Cons.prems(2) Suc by (simp add: record_call_def)
      have c: "k' < count_list es ChangeReceived"
        using Cons.prems(3) Suc ChangeReceived by simp
      from Cons.IH [OF a b c] show ?thesis using ChangeReceived h0 Suc
        by (auto simp: record_call_def Kill_eq replicate_append_same)
    qed
  qed
qed

lemma select_loop_shape:
  "select_loop es nw = (x, nw') \<Longrightarrow>
     actions nw' = actions nw @ replicate (calls nw' - calls nw) CallHandle
   \<and> calls nw \<le> calls nw' \<and> x \<noteq> Panics \<and> goroutine nw' = goroutine nw
   \<and> handler nw' = handler nw \<and> (tomb nw' = tomb nw \<or> tomb nw' = tomb (Kill nw))"
proof (induction es nw arbitrary: x nw' rule: select_loop.induct)
  case (1 nw)
  then show ?case by (auto split: if_splits)
next
  case (2 es nw)
  from 2 have "select_loop es (Kill nw) = (x, nw')" by simp
  from "2.IH" [OF this] show ?case by (auto simp: Kill_Kill)
next
  case (3 es nw)
  show ?case
  proof (cases "handle (handler nw) (calls nw)")
    case None
    with 3 have "select_loop es ((record_call CallHandle nw)\<lparr>calls := Suc (calls nw)\<rparr>) = (x, nw')"
      by simp
    from "3.IH" [OF None this] show ?thesis
      by (auto simp: record_call_def Kill_eq Suc_diff_le replicate_append_same
               simp flip: replicate_Suc)
  next
    case (Some err)
    with 3 show ?thesis by (auto simp: record_call_def)
  qed
qed

lemma tomb_Done_eq:
  "tomb_Done t = Inr (t\<lparr>reason := (if reason t = Some ErrStillAlive then None else reason t),
                        dying := True, dead := True\<rparr>)"
  by (simp add: tomb_Done_def tomb_Kill_nil)

lemma finish_fields [simp]:
  "actions (finish ph nw) = actions nw" "calls (finish ph nw) = calls nw"
  "handler (finish ph nw) = handler nw" "goroutine (finish ph nw) = ph"
  "dead (tomb (finish ph nw))" 
  "reason (tomb (finish ph nw)) = (if reason (tomb nw) = Some ErrStillAlive then None else reason (tomb nw))"
  by (simp_all add: finish_def tomb_Done_eq)

lemma tomb_Kill_real:
  "reason t = Some (Err m) \<Longrightarrow> \<exists>t'. tomb_Kill r t = Inr t' \<and> reason t' = Some (Err m) \<and> dead t' = dead t"
  by (auto simp: tomb_Kill_def)

lemma tomb_Kills_real:
  "reason t = Some (Err m) \<Longrightarrow> \<exists>t'. tomb_Kills rs t = Inr t' \<and> reason t' = Some (Err m) \<and> dead t' = dead t"
proof (induction rs arbitrary: t)
  case Nil
  then show ?case by simp
next
  case (Cons r rs)
  from tomb_Kill_real [OF Cons.prems, of r] obtain t1 where
    t1: "tomb_Kill r t = Inr t1" "reason t1 = Some (Err m)" "dead t1 = dead t" by blast
  from Cons.IH [OF t1(2)] t1 show ?case by auto
qed

lemma advance_New_ok:
  "setUp h = (Some w, None) \<Longrightarrow>
   advance es (NewNotifyWorker h) =
     kill_and_done (run_deferred w (select_loop es
        \<lparr>tomb = tomb_init, handler = h, actions = [CallSetUp], calls = 0, goroutine = Selecting w\<rparr>))"
  by (simp add: advance_def NewNotifyWorker_def loop_def from_select_def record_call_def)

lemma unwind_fields:
  assumes "out \<noteq> Blocks"
  shows "actions (kill_and_done (run_deferred w (out, nw))) = actions nw @ [CallStop, CallTearDown]"
    and "calls (kill_and_done (run_deferred w (out, nw))) = calls nw"
    and "dead (tomb (kill_and_done (run_deferred w (out, nw))))"
    and "goroutine (kill_and_done (run_deferred w (out, nw))) \<in> {Exited, Crashed}"
  using assms
  by (auto simp: kill_and_done_def run_deferred_def record_call_def
           split: sum.splits outcome.splits)

lemma blocked_fields:
  "kill_and_done (run_deferred w (Blocks, nw)) = nw"
  by (simp add: kill_and_done_def run_deferred_def)

lemma Kill_tomb_init:
  "tomb (Kill \<lparr>tomb = tomb_init, handler = h, actions = a, calls = c, goroutine = g\<rparr>)
     = \<lparr>reason = None, dying = True, dead = False\<rparr>"
  by (simp add: Kill_eq tomb_init_def)

lemma unwind_handle_error:
  assumes "t = tomb_init \<or> t = \<lparr>reason = None, dying = True, dead = False\<rparr>"
      and "stopError w = None \<or> (\<exists>r. stopError w = Some (Err r))"
  shows "kill_and_done (run_deferred w (Returns (Some (Err m)),
            \<lparr>tomb = t, handler = h, actions = a, calls = c, goroutine = g\<rparr>)) =
           \<lparr>tomb = \<lparr>reason = (case stopError w of None \<Rightarrow> Some (Err m) | Some e \<Rightarrow> Some e),
                      dying = True, dead = True\<rparr>,
            handler = h, actions = a @ [CallStop, CallTearDown], calls = c, goroutine = Exited\<rparr>"
  using assms
  by (auto simp: kill_and_done_def run_deferred_def watcher_Stop_def tomb_Kill_def
        finish_def tomb_Done_def record_call_def tomb_init_def)

lemma advance_New_setup_error:
  "setUp h = (wo, Some (Err m)) \<Longrightarrow>
   advance es (NewNotifyWorker h) =
     \<lparr>tomb = \<lparr>reason = Some (Err m), dying = True, dead = True\<rparr>, handler = h,
      actions = (case wo of None \<Rightarrow> [CallSetUp, CallTearDown]
                          | Some w \<Rightarrow> [CallSetUp, CallStop, CallTearDown]),
      calls = 0, goroutine = Exited\<rparr>"
  by (cases wo)
     (simp_all add: advance_def NewNotifyWorker_def loop_def kill_and_done_def finish_def
        tomb_Done_def tomb_Kill_def tomb_init_def record_call_def)

lemma kill_and_done_reason:
  "dead (tomb (kill_and_done (out, nw))) \<Longrightarrow> \<not> dead (tomb nw) \<Longrightarrow>
     reason (tomb (kill_and_done (out, nw))) \<noteq> Some ErrStillAlive"
  by (auto simp: kill_and_done_def split: outcome.splits sum.splits)

lemma run_deferred_dead:
  "\<not> dead (tomb nw) \<Longrightarrow> \<not> dead (tomb (snd (run_deferred w (out, nw))))"
  by (auto simp: run_deferred_def watcher_Stop_def tomb_Kill_def record_call_def
           split: sum.splits option.splits if_splits)

lemma loop_dead:
  assumes "\<not> dead (tomb nw)"
  shows "\<not> dead (tomb (snd (loop es nw)))"
proof -
  have sel: "\<not> dead (tomb (snd (from_select w es nw1)))" if "\<not> dead (tomb nw1)" for w nw1
  proof -
    obtain out nw' where sl: "select_loop es (nw1\<lparr>goroutine := Selecting w\<rparr>) = (out, nw')"
      by (cases "select_loop es (nw1\<lparr>goroutine := Selecting w\<rparr>)")
    from select_loop_shape [OF sl] that have "\<not> dead (tomb nw')"
      by (auto simp: Kill_eq)
    from run_deferred_dead [OF this] sl show ?thesis by (simp add: from_select_def)
  qed
  show ?thesis
    using assms sel [of "record_call CallSetUp nw"]
    by (auto simp: loop_def record_call_def split: prod.splits option.splits)
qed

lemma advance_New_reason:
  assumes "dead (tomb (advance es (NewNotifyWorker h)))"
  shows "reason (tomb (advance es (NewNotifyWorker h))) \<noteq> Some ErrStillAlive"
proof -
  obtain out nw where l: "loop es (NewNotifyWorker h) = (out, nw)"
    by (cases "loop es (NewNotifyWorker h)")
  have "\<not> dead (tomb (NewNotifyWorker h))" by (simp add: NewNotifyWorker_def tomb_init_def)
  from loop_dead [OF this, of es] l have nd: "\<not> dead (tomb nw)" by simp
  have adv: "advance es (NewNotifyWorker h) = kill_and_done (out, nw)"
    using l by (simp add: advance_def NewNotifyWorker_def)
  from kill_and_done_reason [of out nw] assms nd adv show ?thesis by simp
qed


subsection \<open>Precedence of a release error over a Handle error\<close>





subsection \<open>A release error after a clean shutdown request\<close>

text \<open>
  C2. \<open>SetUp\<close> succeeds, every \<open>Handle\<close> call returns nil, \<open>Kill()\<close> is called at
  some point, and the watcher's \<open>Stop\<close> returns an ordinary error \<open>R\<close>: the
  goroutine exits and \<open>Wait()\<close> returns \<open>R\<close>.
\<close>

theorem kill_release_error:
  assumes "setUp h = (Some w, None)" and "stopError w = Some (Err r)"
      and "\<forall>j<count_list es ChangeReceived. handle h j = None"
      and "KillCalled \<in> set es"
  shows "Wait es (NewNotifyWorker h) = Some (Some (Err r))
       \<and> goroutine (advance es (NewNotifyWorker h)) = Exited"
proof -
  let ?nw0 = "\<lparr>tomb = tomb_init, handler = h, actions = [CallSetUp], calls = 0, goroutine = Selecting w\<rparr>"
  have "\<forall>j<count_list es ChangeReceived. handle (handler ?nw0) (calls ?nw0 + j) = None"
    using assms(3) by simp
  from select_loop_all_nil [OF this] assms(4)
  have sl: "select_loop es ?nw0 =
     (Returns (Some ErrDying),
      \<lparr>tomb = \<lparr>reason = None, dying = True, dead = False\<rparr>, handler = h,
       actions = CallSetUp # replicate (count_list es ChangeReceived) CallHandle,
       calls = count_list es ChangeReceived, goroutine = Selecting w\<rparr>)"
    by (simp add: Kill_eq tomb_init_def)
  have "advance es (NewNotifyWorker h) =
     \<lparr>tomb = \<lparr>reason = Some (Err r), dying = True, dead = True\<rparr>, handler = h,
       actions = CallSetUp # replicate (count_list es ChangeReceived) CallHandle @ [CallStop, CallTearDown],
       calls = count_list es ChangeReceived, goroutine = Exited\<rparr>"
    using advance_New_ok [OF assms(1), of es] sl assms(2)
    by (simp add: kill_and_done_def run_deferred_def watcher_Stop_def tomb_Kill_def
        finish_def tomb_Done_def record_call_def)
  then show ?thesis by (simp add: Wait_def tomb_Wait_def)
qed

theorem kill_release_error_witness:
  "setUp (ActionsHandler (Some (TestWatcher (Some (Err ''error while stopping watcher'')))) None None)
     = (Some (TestWatcher (Some (Err ''error while stopping watcher''))), None)
   \<and> stopError (TestWatcher (Some (Err ''error while stopping watcher'')))
     = Some (Err ''error while stopping watcher'')
   \<and> KillCalled \<in> set [ChangeReceived, KillCalled]
   \<and> Wait [ChangeReceived, KillCalled]
        (NewNotifyWorker
           (ActionsHandler (Some (TestWatcher (Some (Err ''error while stopping watcher''))))
              None None))
       = Some (Some (Err ''error while stopping watcher''))"
  using kill_release_error
          [of "ActionsHandler (Some (TestWatcher (Some (Err ''error while stopping watcher'')))) None None"
              "TestWatcher (Some (Err ''error while stopping watcher''))"
              "''error while stopping watcher''" "[ChangeReceived, KillCalled]"]
  by (simp add: ActionsHandler_def TestWatcher_def)


subsection \<open>TearDown and release on every exit\<close>




subsection \<open>SetUp without watcher and without error\<close>

text \<open>
  C4. If \<open>SetUp\<close> returns a nil watcher and a nil error, the goroutine exits,
  \<open>Wait()\<close> returns the error "SetUp returned a nil Watcher", and the calls made
  are \<open>SetUp\<close> and then \<open>TearDown\<close>: \<open>TearDown\<close> ran once and no watcher was
  stopped.
\<close>

theorem setup_nil_watcher:
  assumes "setUp h = (None, None)"
  shows "Wait es (NewNotifyWorker h) = Some (Some (Err ''SetUp returned a nil Watcher''))
       \<and> actions (advance es (NewNotifyWorker h)) = [CallSetUp, CallTearDown]
       \<and> goroutine (advance es (NewNotifyWorker h)) = Exited"
  using assms
  by (simp add: Wait_def advance_def NewNotifyWorker_def loop_def kill_and_done_def
      finish_def tomb_Done_def tomb_Kill_def tomb_init_def tomb_Wait_def record_call_def)

theorem setup_nil_watcher_witness:
  "setUp (ActionsHandler None None None) = (None, None)
   \<and> Wait [] (NewNotifyWorker (ActionsHandler None None None))
       = Some (Some (Err ''SetUp returned a nil Watcher''))
   \<and> actions (advance [] (NewNotifyWorker (ActionsHandler None None None)))
       = [CallSetUp, CallTearDown]"
  using setup_nil_watcher [of "ActionsHandler None None None" "[]"]
  by (simp add: ActionsHandler_def)


subsection \<open>SetUp with a watcher and an error\<close>

text \<open>
  C5. If \<open>SetUp\<close> returns a watcher together with an ordinary error, the calls
  made are \<open>SetUp\<close>, the watcher's \<open>Stop\<close> and \<open>TearDown\<close>; \<open>Handle\<close> is never
  called; and \<open>Wait()\<close> returns the error of \<open>SetUp\<close>, whatever the watcher's
  \<open>Stop\<close> returns.
\<close>

theorem setup_error_with_watcher:
  assumes "setUp h = (Some w, Some (Err m))"
  shows "Wait es (NewNotifyWorker h) = Some (Some (Err m))
       \<and> actions (advance es (NewNotifyWorker h)) = [CallSetUp, CallStop, CallTearDown]
       \<and> calls (advance es (NewNotifyWorker h)) = 0
       \<and> goroutine (advance es (NewNotifyWorker h)) = Exited"
  using advance_New_setup_error [OF assms, of es]
  by (simp add: Wait_def tomb_Wait_def)

theorem setup_error_with_watcher_witness:
  "setUp (ActionsHandler (Some (TestWatcher (Some (Err ''stop'')))) (Some (Err ''my special error'')) None)
     = (Some (TestWatcher (Some (Err ''stop''))), Some (Err ''my special error''))
   \<and> Wait [ChangeReceived]
        (NewNotifyWorker (ActionsHandler (Some (TestWatcher (Some (Err ''stop''))))
           (Some (Err ''my special error'')) None))
       = Some (Some (Err ''my special error''))
   \<and> actions (advance [ChangeReceived]
        (NewNotifyWorker (ActionsHandler (Some (TestWatcher (Some (Err ''stop''))))
           (Some (Err ''my special error'')) None)))
       = [CallSetUp, CallStop, CallTearDown]"
  using setup_error_with_watcher
          [of "ActionsHandler (Some (TestWatcher (Some (Err ''stop'')))) (Some (Err ''my special error'')) None"
              "TestWatcher (Some (Err ''stop''))" "''my special error''" "[ChangeReceived]"]
  by (simp add: ActionsHandler_def TestWatcher_def)


subsection \<open>One Handle call per notification\<close>

text \<open>
  C6. \<open>SetUp\<close> succeeds and \<open>Handle\<close> returns nil each time. Under every
  schedule, with \<open>N\<close> the number of notifications in it, \<open>Handle\<close> is called
  exactly \<open>N\<close> times: the trace is \<open>SetUp\<close>, then \<open>N\<close> times \<open>Handle\<close>, one after
  the other, then (if \<open>Kill\<close> was called) the watcher's \<open>Stop\<close> and \<open>TearDown\<close>.
\<close>

theorem handle_once_per_change:
  assumes "setUp h = (Some w, None)"
      and "\<forall>j<count_list es ChangeReceived. handle h j = None"
  shows "calls (advance es (NewNotifyWorker h)) = count_list es ChangeReceived
       \<and> actions (advance es (NewNotifyWorker h)) =
           CallSetUp # replicate (count_list es ChangeReceived) CallHandle
             @ (if KillCalled \<in> set es then [CallStop, CallTearDown] else [])
       \<and> count_list (actions (advance es (NewNotifyWorker h))) CallHandle
           = count_list es ChangeReceived"
proof -
  let ?n = "count_list es ChangeReceived"
  let ?nw0 = "\<lparr>tomb = tomb_init, handler = h, actions = [CallSetUp], calls = 0, goroutine = Selecting w\<rparr>"
  let ?nw1 = "(if KillCalled \<in> set es then Kill ?nw0 else ?nw0)
        \<lparr>actions := actions ?nw0 @ replicate ?n CallHandle, calls := calls ?nw0 + ?n\<rparr>"
  have "\<forall>j<?n. handle (handler ?nw0) (calls ?nw0 + j) = None"
    using assms(2) by simp
  from select_loop_all_nil [OF this]
  have sl: "select_loop es ?nw0 =
     (if KillCalled \<in> set es then Returns (Some ErrDying) else Blocks, ?nw1)"
    by (simp add: tomb_init_def)
  have adv: "advance es (NewNotifyWorker h) =
     kill_and_done (run_deferred w (if KillCalled \<in> set es then Returns (Some ErrDying) else Blocks, ?nw1))"
    using advance_New_ok [OF assms(1), of es] sl by simp
  have cnt: "count_list (replicate n CallHandle) CallHandle = n" for n
    by (induction n) simp_all
  show ?thesis
  proof (cases "KillCalled \<in> set es")
    case True
    have nb: "Returns (Some ErrDying) \<noteq> Blocks" by simp
    from True adv unwind_fields(1,2) [OF nb, of w ?nw1]
    have "calls (advance es (NewNotifyWorker h)) = ?n"
      "actions (advance es (NewNotifyWorker h)) = CallSetUp # replicate ?n CallHandle @ [CallStop, CallTearDown]"
      by simp_all
    with True show ?thesis by (simp add: cnt)
  next
    case False
    with adv have "advance es (NewNotifyWorker h) = ?nw1" by (simp add: blocked_fields)
    with False show ?thesis by (simp add: cnt)
  qed
qed

theorem handle_once_per_change_witness:
  "setUp (ActionsHandler (Some (TestWatcher None)) None None) = (Some (TestWatcher None), None)
   \<and> count_list [ChangeReceived, ChangeReceived, ChangeReceived, KillCalled] ChangeReceived = 3
   \<and> calls (advance [ChangeReceived, ChangeReceived, ChangeReceived, KillCalled]
        (NewNotifyWorker (ActionsHandler (Some (TestWatcher None)) None None))) = 3
   \<and> actions (advance [ChangeReceived, ChangeReceived, ChangeReceived, KillCalled]
        (NewNotifyWorker (ActionsHandler (Some (TestWatcher None)) None None)))
       = [CallSetUp, CallHandle, CallHandle, CallHandle, CallStop, CallTearDown]"
  using handle_once_per_change
          [of "ActionsHandler (Some (TestWatcher None)) None None" "TestWatcher None"
              "[ChangeReceived, ChangeReceived, ChangeReceived, KillCalled]"]
  by (simp add: ActionsHandler_def TestWatcher_def numeral_3_eq_3)


subsection \<open>A Handle error ends the worker\<close>

text \<open>
  C7. \<open>SetUp\<close> succeeds with a watcher whose \<open>Stop\<close> succeeds, the first \<open>k - 1\<close>
  calls of \<open>Handle\<close> return nil and the \<open>k\<close>-th returns an ordinary error \<open>E\<close> (not
  one of the tomb's two sentinels). Under every schedule that delivers at least
  \<open>k\<close> notifications, wherever \<open>Kill\<close> calls fall among them, the goroutine
  exits, \<open>Wait()\<close> returns \<open>E\<close>, exactly \<open>k\<close> \<open>Handle\<close> calls were made, and they
  are followed by the watcher's \<open>Stop\<close> and then \<open>TearDown\<close>.
\<close>

theorem handle_failure:
  assumes "setUp h = (Some w, None)" and "stopError w = None"
      and "0 < k" and "\<forall>j<k - 1. handle h j = None" and "handle h (k - 1) = Some (Err m)"
      and "k \<le> count_list es ChangeReceived"
  shows "Wait es (NewNotifyWorker h) = Some (Some (Err m))
       \<and> actions (advance es (NewNotifyWorker h)) =
           CallSetUp # replicate k CallHandle @ [CallStop, CallTearDown]
       \<and> calls (advance es (NewNotifyWorker h)) = k
       \<and> goroutine (advance es (NewNotifyWorker h)) = Exited"
proof -
  let ?nw0 = "\<lparr>tomb = tomb_init, handler = h, actions = [CallSetUp], calls = 0, goroutine = Selecting w\<rparr>"
  have "\<exists>t. (t = tomb ?nw0 \<or> t = tomb (Kill ?nw0)) \<and>
           select_loop es ?nw0 =
             (Returns (Some (Err m)),
              ?nw0\<lparr>tomb := t, actions := actions ?nw0 @ replicate (Suc (k - 1)) CallHandle,
                 calls := calls ?nw0 + Suc (k - 1)\<rparr>)"
    using assms by (intro select_loop_fails) simp_all
  then obtain t where t: "t = tomb_init \<or> t = \<lparr>reason = None, dying = True, dead = False\<rparr>"
    and sl: "select_loop es ?nw0 =
             (Returns (Some (Err m)),
              \<lparr>tomb = tomb_init, handler = h, actions = CallSetUp # replicate k CallHandle, calls = k,
               goroutine = Selecting w\<rparr>\<lparr>tomb := t\<rparr>)"
    using assms(3) by (auto simp: Kill_tomb_init)
  have "advance es (NewNotifyWorker h) =
          \<lparr>tomb = \<lparr>reason = Some (Err m), dying = True, dead = True\<rparr>, handler = h,
           actions = CallSetUp # replicate k CallHandle @ [CallStop, CallTearDown],
           calls = k, goroutine = Exited\<rparr>"
    using advance_New_ok [OF assms(1), of es] sl unwind_handle_error [where w = w and m = m, OF t] assms(2)
    by simp
  then show ?thesis by (simp add: Wait_def tomb_Wait_def)
qed

theorem handle_failure_witness:
  "handle \<lparr>setUp = (Some (TestWatcher None), None),
           handle = (\<lambda>i. if i = 1 then Some (Err ''boom'') else None)\<rparr> (2 - 1) = Some (Err ''boom'')
   \<and> (2::nat) \<le> count_list [ChangeReceived, KillCalled, ChangeReceived, ChangeReceived] ChangeReceived
   \<and> Wait [ChangeReceived, KillCalled, ChangeReceived, ChangeReceived]
        (NewNotifyWorker \<lparr>setUp = (Some (TestWatcher None), None),
           handle = (\<lambda>i. if i = 1 then Some (Err ''boom'') else None)\<rparr>)
       = Some (Some (Err ''boom''))
   \<and> actions (advance [ChangeReceived, KillCalled, ChangeReceived, ChangeReceived]
        (NewNotifyWorker \<lparr>setUp = (Some (TestWatcher None), None),
           handle = (\<lambda>i. if i = 1 then Some (Err ''boom'') else None)\<rparr>))
       = [CallSetUp, CallHandle, CallHandle, CallStop, CallTearDown]"
  using handle_failure
          [of "\<lparr>setUp = (Some (TestWatcher None), None),
                handle = (\<lambda>i. if i = 1 then Some (Err ''boom'') else None)\<rparr>"
              "TestWatcher None" 2 "''boom''"
              "[ChangeReceived, KillCalled, ChangeReceived, ChangeReceived]"]
  by (simp add: TestWatcher_def numeral_2_eq_2)


subsection \<open>The tomb as a one-shot latch\<close>

text \<open>
  C8. The tomb is a one-shot latch. Once an ordinary (non-nil, non-sentinel)
  error is its reason, no sequence of later \<open>Kill\<close> calls, whatever their
  reasons (nil, \<open>ErrDying\<close>, other errors), panics or changes the reason, and
  \<open>Wait\<close> returns the same value after them as before. A nil or still-alive
  reason is replaced by an ordinary error given to \<open>Kill\<close>. Once the worker's
  goroutine has exited, a further \<open>Kill()\<close> on the worker leaves what \<open>Wait()\<close>
  returns as it was, nil included.
\<close>

theorem tomb_latch:
  "(reason t = Some (Err m) \<longrightarrow>
      (\<exists>t'. tomb_Kills rs t = Inr t' \<and> reason t' = Some (Err m) \<and> tomb_Wait t' = tomb_Wait t))
   \<and> (reason t = None \<or> reason t = Some ErrStillAlive \<longrightarrow>
      (\<exists>t'. tomb_Kill (Some (Err m)) t = Inr t' \<and> reason t' = Some (Err m)))
   \<and> (dead (tomb (advance es (NewNotifyWorker h))) \<longrightarrow>
        tomb_Wait (tomb (Kill (advance es (NewNotifyWorker h)))) = Wait es (NewNotifyWorker h))"
proof (intro conjI impI)
  assume r: "reason t = Some (Err m)"
  from tomb_Kills_real [OF r, of rs] obtain t' where
    "tomb_Kills rs t = Inr t'" "reason t' = Some (Err m)" "dead t' = dead t" by blast
  with r show "\<exists>t'. tomb_Kills rs t = Inr t' \<and> reason t' = Some (Err m) \<and> tomb_Wait t' = tomb_Wait t"
    by (simp add: tomb_Wait_def)
next
  assume "reason t = None \<or> reason t = Some ErrStillAlive"
  then show "\<exists>t'. tomb_Kill (Some (Err m)) t = Inr t' \<and> reason t' = Some (Err m)"
    by (auto simp: tomb_Kill_def)
next
  assume d: "dead (tomb (advance es (NewNotifyWorker h)))"
  from advance_New_reason [OF d] d
  show "tomb_Wait (tomb (Kill (advance es (NewNotifyWorker h)))) = Wait es (NewNotifyWorker h)"
    by (simp add: Kill_eq Wait_def tomb_Wait_def)
qed

theorem tomb_latch_witness:
  "reason \<lparr>reason = Some (Err ''boom''), dying = True, dead = True\<rparr> = Some (Err ''boom'')
   \<and> (\<exists>t'. tomb_Kills [None, Some ErrDying, Some (Err ''later'')]
              \<lparr>reason = Some (Err ''boom''), dying = True, dead = True\<rparr> = Inr t'
           \<and> reason t' = Some (Err ''boom'')
           \<and> tomb_Wait t' = tomb_Wait \<lparr>reason = Some (Err ''boom''), dying = True, dead = True\<rparr>)
   \<and> reason tomb_init = Some ErrStillAlive
   \<and> (\<exists>t'. tomb_Kill (Some (Err ''boom'')) tomb_init = Inr t' \<and> reason t' = Some (Err ''boom''))
   \<and> dead (tomb (advance [KillCalled] (NewNotifyWorker (ActionsHandler (Some (TestWatcher None)) None None))))
   \<and> tomb_Wait (tomb (Kill (advance [KillCalled]
         (NewNotifyWorker (ActionsHandler (Some (TestWatcher None)) None None)))))
       = Wait [KillCalled] (NewNotifyWorker (ActionsHandler (Some (TestWatcher None)) None None))"
proof -
  let ?t = "\<lparr>reason = Some (Err ''boom''), dying = True, dead = True\<rparr>"
  let ?nw = "advance [KillCalled] (NewNotifyWorker (ActionsHandler (Some (TestWatcher None)) None None))"
  have d: "dead (tomb ?nw)"
    by (simp add: advance_def NewNotifyWorker_def loop_def from_select_def
        run_deferred_def watcher_Stop_def kill_and_done_def finish_def tomb_Done_def
        tomb_Kill_def tomb_init_def record_call_def ActionsHandler_def TestWatcher_def Kill_def)
  have a: "reason ?t = Some (Err ''boom'')" and b: "reason tomb_init = Some ErrStillAlive"
    by (simp_all add: tomb_init_def)
  from tomb_latch [of ?t "''boom''" "[None, Some ErrDying, Some (Err ''later'')]" "[KillCalled]"
                      "ActionsHandler (Some (TestWatcher None)) None None"]
       tomb_latch [of tomb_init "''boom''" "[]" "[]" "ActionsHandler None None None"]
       a b d
  show ?thesis by blast
qed


subsection \<open>Stop is Kill then Wait\<close>

text \<open>
  C9. \<open>Stop()\<close> is \<open>Kill()\<close> followed by \<open>Wait()\<close>: in every state of the worker
  and under every schedule of what is still to happen, \<open>Stop\<close> returns what
  \<open>Wait\<close> returns on the worker after \<open>Kill\<close>.
\<close>

theorem stop_is_kill_then_wait: "Stop es nw = Wait es (Kill nw)"
  by (simp add: Stop_def Wait_def Kill_def tomb_Kill_nil)

theorem stop_is_kill_then_wait_witness:
  "Stop [] (NewNotifyWorker (ActionsHandler (Some (TestWatcher None)) None None))
     = Wait [] (Kill (NewNotifyWorker (ActionsHandler (Some (TestWatcher None)) None None)))
   \<and> Wait [] (Kill (NewNotifyWorker (ActionsHandler (Some (TestWatcher None)) None None)))
     = Some None"
proof -
  have "Wait [] (Kill (NewNotifyWorker (ActionsHandler (Some (TestWatcher None)) None None)))
     = Some None"
    by (simp add: Wait_def advance_def NewNotifyWorker_def loop_def from_select_def
        run_deferred_def watcher_Stop_def kill_and_done_def finish_def tomb_Done_def
        tomb_Kill_def tomb_init_def record_call_def ActionsHandler_def TestWatcher_def Kill_def
        tomb_Wait_def)
  with stop_is_kill_then_wait [of "[]" "NewNotifyWorker (ActionsHandler (Some (TestWatcher None)) None None)"]
  show ?thesis by simp
qed


subsection \<open>LoggingConfig of the logger API\<close>

text \<open>
  C10. In \<open>LoggingConfig\<close>, with \<open>common.ServerError(nil)\<close> being nil: for an
  authorized entity, when \<open>EnvironConfig()\<close> succeeded the result string is empty
  and the error nil, and the whole result does not depend on
  \<open>config.LoggingConfig()\<close>; when \<open>EnvironConfig()\<close> failed the result string is
  \<open>config.LoggingConfig()\<close> of the config that came with the error, and the error
  is nil.
\<close>

theorem logging_config_inverted:
  assumes "serverError None = None"
  shows "(environConfig api = (config, None) \<and> i < length entities \<and> authOwner api (entities ! i)
            \<longrightarrow> LoggingConfig errPerm serverError f api entities ! i = \<lparr>Error = None, Result = ''''\<rparr>)
       \<and> (environConfig api = (config, None)
            \<longrightarrow> LoggingConfig errPerm serverError f api entities
                = LoggingConfig errPerm serverError f' api entities)
       \<and> (environConfig api = (config, Some e) \<and> i < length entities \<and> authOwner api (entities ! i)
            \<longrightarrow> LoggingConfig errPerm serverError f api entities ! i
                = \<lparr>Error = None, Result = f config\<rparr>)"
  using assms by (simp add: LoggingConfig_def)

theorem logging_config_inverted_witness:
  "id (None :: goerror) = None
   \<and> LoggingConfig (Err ''permission denied'') id id
        \<lparr>environConfig = (''<root>=DEBUG'', None), authOwner = ((=) ''machine-0'')\<rparr>
        [''machine-0'', ''machine-1''] ! 0
       = \<lparr>Error = None, Result = ''''\<rparr>
   \<and> LoggingConfig (Err ''permission denied'') id id
        \<lparr>environConfig = (''<root>=DEBUG'', Some (Err ''no config'')), authOwner = ((=) ''machine-0'')\<rparr>
        [''machine-0'', ''machine-1''] ! 0
       = \<lparr>Error = None, Result = ''<root>=DEBUG''\<rparr>"
  using logging_config_inverted
          [of id "\<lparr>environConfig = (''<root>=DEBUG'', None), authOwner = ((=) ''machine-0'')\<rparr>"
              "''<root>=DEBUG''" 0 "[''machine-0'', ''machine-1'']" "Err ''permission denied''"
              id id "Err ''no config''"]
        logging_config_inverted
          [of id "\<lparr>environConfig = (''<root>=DEBUG'', Some (Err ''no config'')), authOwner = ((=) ''machine-0'')\<rparr>"
              "''<root>=DEBUG''" 0 "[''machine-0'', ''machine-1'']" "Err ''permission denied''"
              id id "Err ''no config''"]
  by simp

end
